theory Spec2Isabelle
  imports Complex_Main
begin

section \<open>Score combination strategies of SGNMT (cam/sgnmt/decoding/combination.py)\<close>

subsection \<open>Python floats\<close>

text \<open>
  A Python float is modelled in exact arithmetic: a finite value is a real number, and the
  three special values of IEEE 754 are kept, since the code compares against
  \<open>utils.NEG_INF\<close> and takes logarithms of weights. Rounding and overflow are not modelled.
\<close>

datatype pyfloat = NegInf | Fin real | PosInf | NaN

text \<open>\<open>a + b\<close> on floats: NaN is absorbing, and adding opposite infinities gives NaN.\<close>

fun fadd :: "pyfloat \<Rightarrow> pyfloat \<Rightarrow> pyfloat" where
  "fadd NaN y = NaN"
| "fadd x NaN = NaN"
| "fadd (Fin a) (Fin b) = Fin (a + b)"
| "fadd (Fin a) NegInf = NegInf"
| "fadd (Fin a) PosInf = PosInf"
| "fadd NegInf (Fin b) = NegInf"
| "fadd PosInf (Fin b) = PosInf"
| "fadd NegInf NegInf = NegInf"
| "fadd PosInf PosInf = PosInf"
| "fadd NegInf PosInf = NaN"
| "fadd PosInf NegInf = NaN"

fun fneg :: "pyfloat \<Rightarrow> pyfloat" where
  "fneg NaN = NaN"
| "fneg (Fin a) = Fin (- a)"
| "fneg NegInf = PosInf"
| "fneg PosInf = NegInf"

definition fsub :: "pyfloat \<Rightarrow> pyfloat \<Rightarrow> pyfloat" where
  "fsub x y = fadd x (fneg y)"

text \<open>\<open>a * b\<close> on floats: an infinity times zero is NaN, otherwise the sign rule applies.\<close>

definition inf_of_sign :: "bool \<Rightarrow> pyfloat" where
  "inf_of_sign positive = (if positive then PosInf else NegInf)"

fun fmul :: "pyfloat \<Rightarrow> pyfloat \<Rightarrow> pyfloat" where
  "fmul NaN y = NaN"
| "fmul x NaN = NaN"
| "fmul (Fin a) (Fin b) = Fin (a * b)"
| "fmul (Fin a) NegInf = (if a = 0 then NaN else inf_of_sign (a < 0))"
| "fmul (Fin a) PosInf = (if a = 0 then NaN else inf_of_sign (0 < a))"
| "fmul NegInf (Fin b) = (if b = 0 then NaN else inf_of_sign (b < 0))"
| "fmul PosInf (Fin b) = (if b = 0 then NaN else inf_of_sign (0 < b))"
| "fmul NegInf NegInf = PosInf"
| "fmul PosInf PosInf = PosInf"
| "fmul NegInf PosInf = NegInf"
| "fmul PosInf NegInf = NegInf"

text \<open>\<open>x / n\<close> for a float \<open>x\<close> and a non-zero length \<open>n\<close>.\<close>

fun fdiv_len :: "pyfloat \<Rightarrow> nat \<Rightarrow> pyfloat" where
  "fdiv_len NaN n = NaN"
| "fdiv_len (Fin a) n = Fin (a / real n)"
| "fdiv_len NegInf n = NegInf"
| "fdiv_len PosInf n = PosInf"

text \<open>\<open>np.log\<close>: the logarithm of zero is minus infinity, of a negative number NaN
  (numpy warns and returns, it does not raise).\<close>

fun np_log :: "pyfloat \<Rightarrow> pyfloat" where
  "np_log NaN = NaN"
| "np_log (Fin a) = (if 0 < a then Fin (ln a) else if a = 0 then NegInf else NaN)"
| "np_log NegInf = NaN"
| "np_log PosInf = PosInf"

text \<open>\<open>np.exp\<close>: the exponential of minus infinity is zero.\<close>

fun np_exp :: "pyfloat \<Rightarrow> pyfloat" where
  "np_exp NaN = NaN"
| "np_exp (Fin a) = Fin (exp a)"
| "np_exp NegInf = Fin 0"
| "np_exp PosInf = PosInf"

text \<open>The maximum of two floats; a NaN operand gives NaN.\<close>

fun fmax :: "pyfloat \<Rightarrow> pyfloat \<Rightarrow> pyfloat" where
  "fmax NaN y = NaN"
| "fmax x NaN = NaN"
| "fmax (Fin a) (Fin b) = Fin (max a b)"
| "fmax NegInf y = y"
| "fmax x NegInf = x"
| "fmax PosInf y = PosInf"
| "fmax x PosInf = PosInf"

text \<open>Python's builtin \<open>sum\<close>: a left fold of \<open>+\<close> starting from \<open>0\<close>.\<close>

definition py_sum :: "pyfloat list \<Rightarrow> pyfloat" where
  "py_sum xs = foldl fadd (Fin 0) xs"

subsection \<open>Data model\<close>

text \<open>
  A score breakdown is a list with one entry per time step; each entry is a list of
  tuples \<open>(p, w)\<close>, one per predictor: the predictor's log-probability and its weight.
\<close>

type_synonym predictor_score = "pyfloat \<times> pyfloat"
type_synonym step = "predictor_score list"
type_synonym breakdown = "step list"

datatype error = ZeroDivisionError | IndexError

text \<open>
  A strategy is called with a reference to the caller's list and may assign into it.
  The model returns the outcome of the call (the returned score, or the exception
  raised) together with the state of the caller's list after the call.
\<close>

type_synonym outcome = "(error + pyfloat) \<times> breakdown"

subsection \<open>Collaborators outside the module\<close>

text \<open>Modelled from the spec: \<open>utils.NEG_INF\<close> (cam/sgnmt/utils.py is absent), the
  negative-infinity sentinel for an impossible hypothesis.\<close>

definition NEG_INF :: pyfloat where
  "NEG_INF = NegInf"

text \<open>Modelled from the spec: \<open>utils.log_sum\<close> (cam/sgnmt/utils.py is absent), the
  stable log-sum-exp \<open>max(xs) + log(sum(exp(xi - max(xs))))\<close>. An entry of minus infinity
  contributes \<open>exp(-inf) = 0\<close>, so a list of such entries sums to \<open>log 0\<close>; the empty list
  gives minus infinity.\<close>

definition log_sum :: "pyfloat list \<Rightarrow> pyfloat" where
  "log_sum xs =
     (if xs = [] then NegInf
      else let m = foldl fmax NegInf xs in
        if m = NegInf then NegInf
        else fadd m (np_log (py_sum (map (\<lambda>x. np_exp (fsub x m)) xs))))"

text \<open>Modelled from the spec: \<open>Decoder.combi_arithmetic_unnormalized\<close>
  (cam/sgnmt/decoding/core.py is absent), the unweighted sum of the predictors' raw
  log-probabilities of one step, ignoring the weights.\<close>

definition combi_arithmetic_unnormalized :: "step \<Rightarrow> pyfloat" where
  "combi_arithmetic_unnormalized s = py_sum (map fst s)"

subsection \<open>The combination schemes \<open>sum\<close> and \<open>length_norm\<close>\<close>

definition breakdown2score_sum :: "pyfloat \<Rightarrow> breakdown \<Rightarrow> bool \<Rightarrow> outcome" where
  "breakdown2score_sum working_score score_breakdown full = (Inr working_score, score_breakdown)"

text \<open>\<open>score / len(score_breakdown)\<close>: on the empty list the dividend is the integer \<open>0\<close>
  of \<open>sum([])\<close> and the divisor is \<open>0\<close>, which raises.\<close>

definition breakdown2score_length_norm :: "pyfloat \<Rightarrow> breakdown \<Rightarrow> bool \<Rightarrow> outcome" where
  "breakdown2score_length_norm working_score score_breakdown full =
     (let score = py_sum (map combi_arithmetic_unnormalized score_breakdown) in
      if length score_breakdown = 0 then (Inl ZeroDivisionError, score_breakdown)
      else (Inr (fdiv_len score (length score_breakdown)), score_breakdown))"

subsection \<open>The inner loops of the Bayesian schemes\<close>

text \<open>\<open>for k, (p, w) in enumerate(pos): alphas[k] += p\<close>. Reading \<open>alphas[k]\<close> past the
  end of the list raises; \<open>alphas\<close> is local, so a partial update is not observable.\<close>

fun add_scores :: "pyfloat list \<Rightarrow> nat \<Rightarrow> step \<Rightarrow> error + pyfloat list" where
  "add_scores alphas k [] = Inr alphas"
| "add_scores alphas k ((p, w) # pos) =
     (if k < length alphas then add_scores (alphas[k := fadd (alphas ! k) p]) (Suc k) pos
      else Inl IndexError)"

text \<open>\<open>[alphas[k] - alpha_part + p for k, (p, w) in enumerate(pos)]\<close>\<close>

fun norm_scores :: "pyfloat list \<Rightarrow> pyfloat \<Rightarrow> nat \<Rightarrow> step \<Rightarrow> error + pyfloat list" where
  "norm_scores alphas alpha_part k [] = Inr []"
| "norm_scores alphas alpha_part k ((p, w) # pos) =
     (if k < length alphas then
        (case norm_scores alphas alpha_part (Suc k) pos of
           Inl e \<Rightarrow> Inl e
         | Inr scores \<Rightarrow> Inr (fadd (fsub (alphas ! k) alpha_part) p # scores))
      else Inl IndexError)"

text \<open>\<open>[(p, np.exp(alphas[k] - alpha_part)) for k, (p, w) in enumerate(pos)]\<close>\<close>

fun posterior_step :: "pyfloat list \<Rightarrow> pyfloat \<Rightarrow> nat \<Rightarrow> step \<Rightarrow> error + step" where
  "posterior_step alphas alpha_part k [] = Inr []"
| "posterior_step alphas alpha_part k ((p, w) # pos) =
     (if k < length alphas then
        (case posterior_step alphas alpha_part (Suc k) pos of
           Inl e \<Rightarrow> Inl e
         | Inr updated \<Rightarrow> Inr ((p, np_exp (fsub (alphas ! k) alpha_part)) # updated))
      else Inl IndexError)"

text \<open>The loop over the positions in full mode (lines 91 to 97): \<open>acc\<close> collects one
  combined score per position.\<close>

fun bayesian_full_loop :: "pyfloat list \<Rightarrow> pyfloat list \<Rightarrow> breakdown \<Rightarrow> error + pyfloat list" where
  "bayesian_full_loop alphas acc [] = Inr acc"
| "bayesian_full_loop alphas acc (pos # rest) =
     (case add_scores alphas 0 pos of
        Inl e \<Rightarrow> Inl e
      | Inr alphas' \<Rightarrow>
          (let alpha_part = log_sum alphas' in
           case norm_scores alphas' alpha_part 0 pos of
             Inl e \<Rightarrow> Inl e
           | Inr scores \<Rightarrow> bayesian_full_loop alphas' (acc @ [log_sum scores]) rest))"

text \<open>The loop over \<open>score_breakdown[:-1]\<close> in incremental mode (lines 110 to 112).\<close>

fun add_all_scores :: "pyfloat list \<Rightarrow> breakdown \<Rightarrow> error + pyfloat list" where
  "add_all_scores alphas [] = Inr alphas"
| "add_all_scores alphas (pos # rest) =
     (case add_scores alphas 0 pos of
        Inl e \<Rightarrow> Inl e
      | Inr alphas' \<Rightarrow> add_all_scores alphas' rest)"

subsection \<open>The combination scheme \<open>bayesian\<close>\<close>

definition breakdown2score_bayesian :: "pyfloat \<Rightarrow> breakdown \<Rightarrow> bool \<Rightarrow> outcome" where
  "breakdown2score_bayesian working_score score_breakdown full =
     (if score_breakdown = [] \<or> working_score = NEG_INF then (Inr working_score, score_breakdown)
      else if full then
        (case bayesian_full_loop (map (\<lambda>(p, w). np_log w) (hd score_breakdown)) [] score_breakdown of
           Inl e \<Rightarrow> (Inl e, score_breakdown)
         | Inr acc \<Rightarrow> (Inr (py_sum acc), score_breakdown))
      else if length score_breakdown = 1 then
        (Inr (log_sum (map (\<lambda>(p, w). fadd (np_log w) p) (hd score_breakdown))), score_breakdown)
      else
        (let priors = map snd (hd score_breakdown);
             last_score = py_sum (map (\<lambda>(w, s). fmul w (fst s)) (zip priors (last score_breakdown)));
             working_score' = fsub working_score last_score
         in case add_all_scores (map np_log priors) (butlast score_breakdown) of
              Inl e \<Rightarrow> (Inl e, score_breakdown)
            | Inr alphas \<Rightarrow>
                (let alpha_part = log_sum alphas in
                 case norm_scores alphas alpha_part 0 (last score_breakdown) of
                   Inl e \<Rightarrow> (Inl e, score_breakdown)
                 | Inr scores \<Rightarrow>
                     (case posterior_step alphas alpha_part 0 (last score_breakdown) of
                        Inl e \<Rightarrow> (Inl e, score_breakdown)
                      | Inr updated_breakdown \<Rightarrow>
                          (Inr (fadd working_score' (log_sum scores)),
                           score_breakdown[length score_breakdown - 1 := updated_breakdown])))))"

subsection \<open>The combination scheme \<open>bayesian_loglin\<close>\<close>

text \<open>The loop over the predictors of one position (lines 140 to 143); it returns
  \<open>alphas\<close> and \<open>sub_acc\<close>.\<close>

fun loglin_step :: "pyfloat list \<Rightarrow> nat \<Rightarrow> step \<Rightarrow> error + pyfloat list \<times> pyfloat list" where
  "loglin_step prev_alphas k [] = Inr ([], [])"
| "loglin_step prev_alphas k ((p, w) # pos) =
     (if k < length prev_alphas then
        (let alpha = fadd (prev_alphas ! k) p in
         case loglin_step prev_alphas (Suc k) pos of
           Inl e \<Rightarrow> Inl e
         | Inr (alphas, sub_acc) \<Rightarrow> Inr (alpha # alphas, fadd p alpha # sub_acc))
      else Inl IndexError)"

fun loglin_loop :: "pyfloat list \<Rightarrow> pyfloat list \<Rightarrow> breakdown \<Rightarrow> error + pyfloat list" where
  "loglin_loop prev_alphas acc [] = Inr acc"
| "loglin_loop prev_alphas acc (pos # rest) =
     (case loglin_step prev_alphas 0 pos of
        Inl e \<Rightarrow> Inl e
      | Inr (alphas, sub_acc) \<Rightarrow>
          loglin_loop alphas (acc @ [fsub (log_sum sub_acc) (log_sum alphas)]) rest)"

definition breakdown2score_bayesian_loglin :: "pyfloat \<Rightarrow> breakdown \<Rightarrow> bool \<Rightarrow> outcome" where
  "breakdown2score_bayesian_loglin working_score score_breakdown full =
     (if score_breakdown = [] then (Inr working_score, score_breakdown)
      else
        (case loglin_loop (map (\<lambda>(p, w). np_log w) (hd score_breakdown)) [] score_breakdown of
           Inl e \<Rightarrow> (Inl e, score_breakdown)
         | Inr acc \<Rightarrow> (Inr (py_sum acc), score_breakdown)))"

subsection \<open>Well-formed histories and the quantities of the specification\<close>

fun is_fin :: "pyfloat \<Rightarrow> bool" where
  "is_fin (Fin a) = True"
| "is_fin x = False"

fun fin_value :: "pyfloat \<Rightarrow> real" where
  "fin_value (Fin a) = a"
| "fin_value x = 0"

text \<open>A well-formed history: at least one step, a constant and positive number of
  predictors, finite log-probabilities, and positive finite prior weights in step 0.\<close>

definition well_formed :: "breakdown \<Rightarrow> bool" where
  "well_formed bd \<longleftrightarrow>
     bd \<noteq> [] \<and> hd bd \<noteq> [] \<and>
     list_all (\<lambda>pos. length pos = length (hd bd) \<and> list_all (\<lambda>(p, w). is_fin p) pos) bd \<and>
     list_all (\<lambda>(p, w). is_fin w \<and> 0 < fin_value w) (hd bd)"

text \<open>A history in which every step has exactly one predictor, with a finite
  log-probability.\<close>

definition single_predictor :: "breakdown \<Rightarrow> bool" where
  "single_predictor bd \<longleftrightarrow> list_all (\<lambda>pos. length pos = 1 \<and> is_fin (fst (hd pos))) bd"


text \<open>The probability mass \<open>exp(x)\<close> of a log-domain value, with \<open>exp(-inf) = 0\<close>.\<close>

fun mass :: "pyfloat \<Rightarrow> real" where
  "mass (Fin a) = exp a"
| "mass x = 0"

text \<open>The evidence of predictor \<open>k\<close>: its log-probabilities in the steps before the last,
  in order. A step with at most \<open>k\<close> predictors contributes nothing, as the loop over
  \<open>enumerate(pos)\<close> does not reach \<open>k\<close> there.\<close>

definition evidence :: "breakdown \<Rightarrow> nat \<Rightarrow> pyfloat list" where
  "evidence bd k = map (\<lambda>pos. fst (pos ! k)) (filter (\<lambda>pos. k < length pos) (butlast bd))"

text \<open>\<open>alphas[k] = log(priors[k]) + sum_{t=0}^{T-2} logprob_t[k]\<close>, added from left to
  right in float arithmetic.\<close>

definition alpha :: "breakdown \<Rightarrow> nat \<Rightarrow> pyfloat" where
  "alpha bd k = foldl fadd (np_log (snd (hd bd ! k))) (evidence bd k)"







text \<open>Some step has more predictors than the step before it.\<close>

fun grows :: "nat \<Rightarrow> nat list \<Rightarrow> bool" where
  "grows n [] = False"
| "grows n (l # ls) = (n < l \<or> grows l ls)"

subsection \<open>The caller's protocol of the prefix-consistency law\<close>

text \<open>The naive contribution of a newly appended step: the sum of its log-probabilities
  weighted by the static priors, which are the weights the step is appended with.\<close>

definition naive_contribution :: "step \<Rightarrow> pyfloat" where
  "naive_contribution pos = py_sum (map (\<lambda>(p, w). fmul w p) pos)"

text \<open>One incremental call per prefix: the caller appends the next step, adds its naive
  contribution to the working score, calls the strategy with \<open>full=False\<close>, and carries
  the returned score and the list, as the call left it, to the next prefix.\<close>

fun incremental_prefixes :: "pyfloat \<Rightarrow> breakdown \<Rightarrow> breakdown \<Rightarrow> outcome" where
  "incremental_prefixes working_score history [] = (Inr working_score, history)"
| "incremental_prefixes working_score history (pos # rest) =
     (case breakdown2score_bayesian (fadd working_score (naive_contribution pos))
             (history @ [pos]) False of
        (Inl e, history') \<Rightarrow> (Inl e, history')
      | (Inr working_score', history') \<Rightarrow> incremental_prefixes working_score' history' rest)"

section \<open>Properties\<close>

subsection \<open>Lists and floats\<close>

lemma foldl_fadd_Fin: "foldl fadd (Fin a) (map Fin xs) = Fin (a + sum_list xs)"
  by (induction xs arbitrary: a) (simp_all add: add.assoc)

lemma py_sum_Fin: "py_sum (map Fin xs) = Fin (sum_list xs)"
  by (simp add: py_sum_def foldl_fadd_Fin)

lemma is_fin_value: "is_fin x \<Longrightarrow> x = Fin (fin_value x)"
  by (cases x) simp_all

lemma update_last_butlast: "butlast (xs[length xs - Suc 0 := y]) = butlast xs"
  by (induction xs rule: rev_induct) simp_all

lemma update_last_map:
  "xs \<noteq> [] \<Longrightarrow> f y = f (last xs) \<Longrightarrow> map f (xs[length xs - Suc 0 := y]) = map f xs"
  by (induction xs rule: rev_induct) simp_all




subsection \<open>The log-sum-exp of finite values\<close>

lemma foldl_fmax_Fin: "\<exists>m. foldl fmax (Fin a) (map Fin xs) = Fin m"
  by (induction xs arbitrary: a) simp_all

lemma foldl_fmax_NegInf: "xs \<noteq> [] \<Longrightarrow> \<exists>m. foldl fmax NegInf (map Fin xs) = Fin m"
  by (cases xs) (simp_all add: foldl_fmax_Fin)

lemma sum_list_exp_pos: "xs \<noteq> [] \<Longrightarrow> 0 < (\<Sum>x\<leftarrow>xs. exp (f x :: real))"
proof (induction xs)
  case Nil
  then show ?case by simp
next
  case (Cons x xs)
  have "0 \<le> (\<Sum>x\<leftarrow>xs. exp (f x))" by (rule sum_list_nonneg) auto
  moreover have "0 < exp (f x)" by simp
  ultimately have "0 < exp (f x) + (\<Sum>x\<leftarrow>xs. exp (f x))" by (rule add_pos_nonneg[rotated])
  then show ?case by simp
qed

lemma sum_list_exp_shift: "(\<Sum>x\<leftarrow>xs. exp (x - m :: real)) = (\<Sum>x\<leftarrow>xs. exp x) / exp m"
  by (induction xs) (simp_all add: exp_diff add_divide_distrib)

lemma log_sum_Fin:
  assumes "xs \<noteq> []"
  shows "log_sum (map Fin xs) = Fin (ln (\<Sum>x\<leftarrow>xs. exp x))"
proof -
  obtain m where m: "foldl fmax NegInf (map Fin xs) = Fin m"
    using foldl_fmax_NegInf[OF assms] by blast
  have pos: "0 < (\<Sum>x\<leftarrow>xs. exp x)"
    using sum_list_exp_pos[OF assms, of "\<lambda>x. x"] by simp
  have shifted: "map (\<lambda>x. np_exp (fsub x (Fin m))) (map Fin xs) = map Fin (map (\<lambda>x. exp (x - m)) xs)"
    by (simp add: fsub_def)
  have "m + ln ((\<Sum>x\<leftarrow>xs. exp x) / exp m) = ln (\<Sum>x\<leftarrow>xs. exp x)"
    using pos by (simp add: ln_div)
  moreover have "0 < (\<Sum>x\<leftarrow>xs. exp x) / exp m"
    using pos by simp
  ultimately show ?thesis
    using assms by (simp add: log_sum_def m Let_def shifted py_sum_Fin sum_list_exp_shift del: map_map)
qed

lemma log_sum_single: "log_sum [Fin a] = Fin a"
  using log_sum_Fin[of "[a]"] by simp

subsection \<open>The scheme \<open>sum\<close>\<close>

text \<open>
  Claim C7. \<open>breakdown2score_sum\<close> returns the working score unchanged, for every working
  score, every breakdown and both values of \<open>full\<close>, and leaves the breakdown as it was.
\<close>

theorem sum_returns_working_score:
  "breakdown2score_sum working_score score_breakdown full = (Inr working_score, score_breakdown)"
  by (simp add: breakdown2score_sum_def)

subsection \<open>The scheme \<open>length_norm\<close>\<close>

text \<open>
  Claim C2. On the empty breakdown \<open>breakdown2score_length_norm\<close> is claimed to return
  \<open>0.0\<close> without raising. The code divides \<open>sum([])\<close> by \<open>len([])\<close>: it raises
  ZeroDivisionError, for every working score and both values of \<open>full\<close>.
\<close>

theorem length_norm_empty_raises:
  "breakdown2score_length_norm working_score [] full = (Inl ZeroDivisionError, [])"
  by (simp add: breakdown2score_length_norm_def)

text \<open>
  Claim C6. For every non-empty breakdown of length \<open>T\<close>, \<open>breakdown2score_length_norm\<close>
  returns the sum over all steps of the unweighted per-step sum of the log-probabilities,
  divided by \<open>T\<close>, whatever the working score and \<open>full\<close> are. The weights are not read.
\<close>

theorem length_norm_is_mean_of_step_sums:
  assumes "score_breakdown \<noteq> []"
  shows "breakdown2score_length_norm working_score score_breakdown full =
           (Inr (fdiv_len (py_sum (map (\<lambda>pos. py_sum (map fst pos)) score_breakdown))
                          (length score_breakdown)),
            score_breakdown)"
proof -
  have "combi_arithmetic_unnormalized = (\<lambda>pos. py_sum (map fst pos))"
    by (rule ext) (simp add: combi_arithmetic_unnormalized_def)
  with assms show ?thesis
    by (simp add: breakdown2score_length_norm_def)
qed

theorem length_norm_is_mean_of_step_sums_witness:
  "[[(Fin 1, Fin 7), (Fin 2, NaN)], [(Fin 3, Fin 0), (Fin 4, Fin 1)]] \<noteq> [] \<and>
   breakdown2score_length_norm NaN
       [[(Fin 1, Fin 7), (Fin 2, NaN)], [(Fin 3, Fin 0), (Fin 4, Fin 1)]] True =
     (Inr (Fin 5), [[(Fin 1, Fin 7), (Fin 2, NaN)], [(Fin 3, Fin 0), (Fin 4, Fin 1)]])"
  using length_norm_is_mean_of_step_sums
          [of "[[(Fin 1, Fin 7), (Fin 2, NaN)], [(Fin 3, Fin 0), (Fin 4, Fin 1)]]" NaN True]
  by (simp add: py_sum_def)

subsection \<open>What the strategies do to the caller's breakdown\<close>

lemma posterior_step_fst:
  "posterior_step alphas alpha_part k pos = Inr updated \<Longrightarrow> map fst updated = map fst pos"
  by (induction alphas alpha_part k pos arbitrary: updated rule: posterior_step.induct)
     (auto split: if_splits sum.splits)

lemma bayesian_full_frame: "snd (breakdown2score_bayesian w b True) = b"
  by (simp add: breakdown2score_bayesian_def split: sum.splits)

lemma bayesian_loglin_frame: "snd (breakdown2score_bayesian_loglin w b f) = b"
  by (simp add: breakdown2score_bayesian_loglin_def split: sum.splits)

lemma bayesian_incremental_butlast:
  "butlast (snd (breakdown2score_bayesian w b False)) = butlast b"
  by (simp add: breakdown2score_bayesian_def Let_def update_last_butlast split: sum.splits)

lemma bayesian_incremental_log_probs:
  "map (map fst) (snd (breakdown2score_bayesian w b False)) = map (map fst) b"
  by (auto simp add: breakdown2score_bayesian_def Let_def update_last_map posterior_step_fst
           split: sum.splits)

text \<open>
  Claim C5. For every input, \<open>sum\<close>, \<open>length_norm\<close>, \<open>bayesian_loglin\<close> and \<open>bayesian\<close>
  with \<open>full=True\<close> leave the caller's breakdown unchanged. \<open>bayesian\<close> with \<open>full=False\<close>
  changes at most the weights of the last step: every earlier step is unchanged, and so
  is every log-probability of every step (hence the number of steps and of predictors).
\<close>

theorem breakdown_frame:
  "snd (breakdown2score_sum w b full) = b \<and>
   snd (breakdown2score_length_norm w b full) = b \<and>
   snd (breakdown2score_bayesian_loglin w b full) = b \<and>
   snd (breakdown2score_bayesian w b True) = b \<and>
   butlast (snd (breakdown2score_bayesian w b False)) = butlast b \<and>
   map (map fst) (snd (breakdown2score_bayesian w b False)) = map (map fst) b"
  by (simp add: breakdown2score_sum_def breakdown2score_length_norm_def
        bayesian_loglin_frame bayesian_full_frame bayesian_incremental_butlast
        bayesian_incremental_log_probs)

subsection \<open>The short-circuits of the Bayesian schemes\<close>

text \<open>
  Claim C9. \<open>breakdown2score_bayesian\<close> returns the working score unchanged and leaves
  the breakdown as it was whenever the breakdown is empty or the working score is the
  negative-infinity sentinel, in full mode too; so the result of the full mode is not a
  function of the history alone: on one history, two working scores give two results.
\<close>

theorem bayesian_short_circuit:
  "(score_breakdown = [] \<or> working_score = NEG_INF \<longrightarrow>
      breakdown2score_bayesian working_score score_breakdown full =
        (Inr working_score, score_breakdown)) \<and>
   (\<exists>bd w w'. fst (breakdown2score_bayesian w bd True) \<noteq> fst (breakdown2score_bayesian w' bd True))"
proof (intro conjI impI)
  assume "score_breakdown = [] \<or> working_score = NEG_INF"
  then show "breakdown2score_bayesian working_score score_breakdown full =
      (Inr working_score, score_breakdown)"
    by (auto simp: breakdown2score_bayesian_def)
next
  have "fst (breakdown2score_bayesian NEG_INF [[(Fin 0, Fin 1)]] True) = Inr NegInf"
    by (simp add: breakdown2score_bayesian_def NEG_INF_def)
  moreover have "fst (breakdown2score_bayesian (Fin 0) [[(Fin 0, Fin 1)]] True) = Inr (Fin 0)"
    by (simp add: breakdown2score_bayesian_def NEG_INF_def log_sum_single fsub_def py_sum_def)
  ultimately have "fst (breakdown2score_bayesian NEG_INF [[(Fin 0, Fin 1)]] True) \<noteq>
      fst (breakdown2score_bayesian (Fin 0) [[(Fin 0, Fin 1)]] True)"
    by simp
  then show "\<exists>bd w w'. fst (breakdown2score_bayesian w bd True) \<noteq>
      fst (breakdown2score_bayesian w' bd True)"
    by blast
qed

theorem bayesian_short_circuit_witness:
  "breakdown2score_bayesian NEG_INF [[(Fin (-1), Fin 1)]] True =
     (Inr NEG_INF, [[(Fin (-1), Fin 1)]]) \<and>
   breakdown2score_bayesian (Fin 3) [] True = (Inr (Fin 3), [])"
  using bayesian_short_circuit [of "[[(Fin (-1), Fin 1)]]" NEG_INF True]
        bayesian_short_circuit [of "[]" "Fin 3" True]
  by simp

text \<open>
  Claim C10. \<open>breakdown2score_bayesian_loglin\<close> returns the working score unchanged on
  the empty breakdown, for every working score and both values of \<open>full\<close>, although on a
  non-empty breakdown its outcome does not depend on the working score (nor on \<open>full\<close>).
\<close>

theorem bayesian_loglin_empty:
  "breakdown2score_bayesian_loglin working_score [] full = (Inr working_score, []) \<and>
   (score_breakdown \<noteq> [] \<longrightarrow>
      breakdown2score_bayesian_loglin w score_breakdown full =
        breakdown2score_bayesian_loglin w' score_breakdown full')"
  by (simp add: breakdown2score_bayesian_loglin_def)

theorem bayesian_loglin_empty_witness:
  "breakdown2score_bayesian_loglin (Fin 2) [] False = (Inr (Fin 2), []) \<and>
   [[(Fin (-1), Fin 1)]] \<noteq> [] \<and>
   breakdown2score_bayesian_loglin (Fin 2) [[(Fin (-1), Fin 1)]] False =
     breakdown2score_bayesian_loglin (Fin 5) [[(Fin (-1), Fin 1)]] True"
  using bayesian_loglin_empty [of "Fin 2" False "[[(Fin (-1), Fin 1)]]" "Fin 2" "Fin 5" True]
  by simp

subsection \<open>The scheme \<open>bayesian_loglin\<close> with a single predictor\<close>

lemma single_step:
  assumes "length pos = 1" and "is_fin (fst (hd pos))"
  shows "\<exists>p w. pos = [(Fin p, w)]"
proof -
  from assms(1) obtain x where x: "pos = [x]"
    by (cases pos) simp_all
  with assms(2) have "fst x = Fin (fin_value (fst x))"
    by (simp add: is_fin_value)
  then have "x = (Fin (fin_value (fst x)), snd x)"
    by (metis prod.collapse)
  with x show ?thesis by blast
qed

lemma loglin_loop_single:
  "single_predictor bd \<Longrightarrow>
   loglin_loop [Fin a] acc bd = Inr (acc @ map (\<lambda>pos. fst (hd pos)) bd)"
proof (induction bd arbitrary: a acc)
  case Nil
  then show ?case by simp
next
  case (Cons pos rest)
  from Cons.prems have "length pos = 1" and "is_fin (fst (hd pos))"
    by (simp_all add: single_predictor_def)
  then obtain p w where pos: "pos = [(Fin p, w)]"
    using single_step by blast
  from Cons.prems have rest: "single_predictor rest"
    by (simp add: single_predictor_def)
  show ?case
    by (simp add: pos Cons.IH[OF rest] log_sum_single fsub_def)
qed

text \<open>
  Claim C8, as the code has it. For every non-empty history in which every step has
  exactly one predictor, with a finite log-probability, and in which the prior weight of
  step 0 is finite and positive, \<open>breakdown2score_bayesian_loglin\<close> returns the plain sum
  of the predictor's log-probabilities across the steps.
\<close>

theorem loglin_single_predictor:
  assumes "score_breakdown \<noteq> []" and "single_predictor score_breakdown"
    and "is_fin (snd (hd (hd score_breakdown)))"
    and "0 < fin_value (snd (hd (hd score_breakdown)))"
  shows "breakdown2score_bayesian_loglin working_score score_breakdown full =
          (Inr (py_sum (map (\<lambda>pos. fst (hd pos)) score_breakdown)), score_breakdown)"
proof -
  from assms(1,2) have "length (hd score_breakdown) = 1" and "is_fin (fst (hd (hd score_breakdown)))"
    by (cases score_breakdown; simp add: single_predictor_def)+
  then obtain p w where hd: "hd score_breakdown = [(Fin p, w)]"
    using single_step by blast
  with assms(3) have "w = Fin (fin_value w)"
    by (simp add: is_fin_value)
  moreover from hd assms(4) have "0 < fin_value w" by simp
  ultimately have "np_log w = Fin (ln (fin_value w))"
    by (metis np_log.simps(2))
  with hd have "map (\<lambda>(p, w). np_log w) (hd score_breakdown) = [Fin (ln (fin_value w))]"
    by simp
  then show ?thesis
    using assms(1) by (simp add: breakdown2score_bayesian_loglin_def loglin_loop_single[OF assms(2)])
qed

theorem loglin_single_predictor_witness:
  "[[(Fin (-1), Fin 2)], [(Fin (-3), Fin 2)]] \<noteq> [] \<and>
   single_predictor [[(Fin (-1), Fin 2)], [(Fin (-3), Fin 2)]] \<and>
   is_fin (snd (hd (hd [[(Fin (-1), Fin 2)], [(Fin (-3), Fin 2 :: pyfloat)]]))) \<and>
   0 < fin_value (snd (hd (hd [[(Fin (-1), Fin 2)], [(Fin (-3), Fin 2 :: pyfloat)]]))) \<and>
   breakdown2score_bayesian_loglin (Fin 9) [[(Fin (-1), Fin 2)], [(Fin (-3), Fin 2)]] False =
     (Inr (Fin (-4)), [[(Fin (-1), Fin 2)], [(Fin (-3), Fin 2)]])"
  using loglin_single_predictor [of "[[(Fin (-1), Fin 2)], [(Fin (-3), Fin 2)]]" "Fin 9" False]
  by (simp add: single_predictor_def py_sum_def)

text \<open>
  Claim C8 as stated, for every non-empty single-predictor history, fails: when the
  predictor gives minus infinity, or when its prior weight is zero, the code returns NaN
  (minus infinity minus minus infinity), not the sum of the log-probabilities.
\<close>

theorem loglin_single_predictor_counterexample:
  "fst (breakdown2score_bayesian_loglin (Fin 0) [[(NegInf, Fin 1)]] False) = Inr NaN \<and>
   py_sum (map (\<lambda>pos. fst (hd pos)) [[(NegInf, Fin 1)]]) = NegInf \<and>
   fst (breakdown2score_bayesian_loglin (Fin 0) [[(Fin (-1), Fin 0)]] False) = Inr NaN \<and>
   py_sum (map (\<lambda>pos. fst (hd pos)) [[(Fin (-1), Fin 0)]]) = Fin (-1)"
  by (simp add: breakdown2score_bayesian_loglin_def log_sum_def fsub_def py_sum_def)

subsection \<open>When the strategies raise\<close>

text \<open>An index error is raised exactly when a step has more predictors than the list of
  alphas has entries; the list of alphas keeps its length.\<close>

lemma add_scores_length: "add_scores alphas k pos = Inr a' \<Longrightarrow> length a' = length alphas"
  by (induction alphas k pos arbitrary: a' rule: add_scores.induct) (auto split: if_splits)

lemma add_scores_error: "add_scores alphas k pos = Inl e \<Longrightarrow> e = IndexError"
  by (induction alphas k pos rule: add_scores.induct) (auto split: if_splits)

lemma add_scores_isl: "k \<le> length alphas \<Longrightarrow> isl (add_scores alphas k pos) \<longleftrightarrow> length alphas < k + length pos"
  by (induction alphas k pos rule: add_scores.induct) auto

lemma norm_scores_error: "norm_scores alphas c k pos = Inl e \<Longrightarrow> e = IndexError"
  by (induction alphas c k pos rule: norm_scores.induct) (auto split: if_splits sum.splits)

lemma norm_scores_isl: "k \<le> length alphas \<Longrightarrow> isl (norm_scores alphas c k pos) \<longleftrightarrow> length alphas < k + length pos"
  by (induction alphas c k pos rule: norm_scores.induct) (auto split: sum.splits)

lemma posterior_step_error: "posterior_step alphas c k pos = Inl e \<Longrightarrow> e = IndexError"
  by (induction alphas c k pos rule: posterior_step.induct) (auto split: if_splits sum.splits)

lemma posterior_step_isl: "k \<le> length alphas \<Longrightarrow> isl (posterior_step alphas c k pos) \<longleftrightarrow> length alphas < k + length pos"
  by (induction alphas c k pos rule: posterior_step.induct) (auto split: sum.splits)

lemma bayesian_full_loop_error: "bayesian_full_loop alphas acc bd = Inl e \<Longrightarrow> e = IndexError"
  by (induction alphas acc bd rule: bayesian_full_loop.induct)
     (auto simp: Let_def split: sum.splits dest: add_scores_error norm_scores_error)

lemma bayesian_full_loop_isl:
  "isl (bayesian_full_loop alphas acc bd) \<longleftrightarrow> (\<exists>pos\<in>set bd. length alphas < length pos)"
proof (induction alphas acc bd rule: bayesian_full_loop.induct)
  case (1 alphas acc)
  then show ?case by simp
next
  case (2 alphas acc pos rest)
  show ?case
  proof (cases "add_scores alphas 0 pos")
    case (Inl e)
    then have "isl (add_scores alphas 0 pos)" by simp
    then have "length alphas < length pos" by (simp add: add_scores_isl)
    with Inl show ?thesis by simp
  next
    case (Inr alphas')
    then have len: "length alphas' = length alphas" by (rule add_scores_length)
    from Inr have "\<not> isl (add_scores alphas 0 pos)" by simp
    then have le: "\<not> length alphas < length pos" by (simp add: add_scores_isl)
    then have "\<not> isl (norm_scores alphas' (log_sum alphas') 0 pos)"
      by (simp add: norm_scores_isl len)
    then obtain scores where ns: "norm_scores alphas' (log_sum alphas') 0 pos = Inr scores"
      by (cases "norm_scores alphas' (log_sum alphas') 0 pos") auto
    from "2.IH"[OF Inr refl ns] Inr ns le len show ?thesis by (simp add: Let_def)
  qed
qed

lemma add_all_scores_error: "add_all_scores alphas bd = Inl e \<Longrightarrow> e = IndexError"
  by (induction alphas bd rule: add_all_scores.induct)
     (auto split: sum.splits dest: add_scores_error)

lemma add_all_scores_length: "add_all_scores alphas bd = Inr a' \<Longrightarrow> length a' = length alphas"
  by (induction alphas bd arbitrary: a' rule: add_all_scores.induct)
     (auto split: sum.splits dest: add_scores_length)

lemma add_all_scores_isl:
  "isl (add_all_scores alphas bd) \<longleftrightarrow> (\<exists>pos\<in>set bd. length alphas < length pos)"
proof (induction alphas bd rule: add_all_scores.induct)
  case (1 alphas)
  then show ?case by simp
next
  case (2 alphas pos rest)
  show ?case
  proof (cases "add_scores alphas 0 pos")
    case (Inl e)
    then have "isl (add_scores alphas 0 pos)" by simp
    then have "length alphas < length pos" by (simp add: add_scores_isl)
    with Inl show ?thesis by simp
  next
    case (Inr alphas')
    then have len: "length alphas' = length alphas" by (rule add_scores_length)
    from Inr have "\<not> isl (add_scores alphas 0 pos)" by simp
    then have le: "\<not> length alphas < length pos" by (simp add: add_scores_isl)
    from "2.IH"[OF Inr] Inr le len show ?thesis by simp
  qed
qed

lemma loglin_step_error: "loglin_step prev k pos = Inl e \<Longrightarrow> e = IndexError"
  by (induction prev k pos rule: loglin_step.induct) (auto simp: Let_def split: if_splits sum.splits)

lemma loglin_step_length: "loglin_step prev k pos = Inr (alphas, sub_acc) \<Longrightarrow> length alphas = length pos"
  by (induction prev k pos arbitrary: alphas sub_acc rule: loglin_step.induct)
     (auto simp: Let_def split: if_splits sum.splits)

lemma loglin_step_isl: "k \<le> length prev \<Longrightarrow> isl (loglin_step prev k pos) \<longleftrightarrow> length prev < k + length pos"
  by (induction prev k pos rule: loglin_step.induct) (auto simp: Let_def split: sum.splits)

lemma loglin_loop_error: "loglin_loop prev acc bd = Inl e \<Longrightarrow> e = IndexError"
  by (induction prev acc bd rule: loglin_loop.induct)
     (auto split: sum.splits dest: loglin_step_error)

lemma loglin_loop_isl: "isl (loglin_loop prev acc bd) \<longleftrightarrow> grows (length prev) (map length bd)"
proof (induction prev acc bd rule: loglin_loop.induct)
  case (1 prev acc)
  then show ?case by simp
next
  case (2 prev acc pos rest)
  show ?case
  proof (cases "loglin_step prev 0 pos")
    case (Inl e)
    then have "isl (loglin_step prev 0 pos)" by simp
    then have "length prev < length pos" by (simp add: loglin_step_isl)
    with Inl show ?thesis by simp
  next
    case (Inr r)
    obtain alphas sub_acc where r: "r = (alphas, sub_acc)" by (cases r)
    with Inr have len: "length alphas = length pos" by (simp add: loglin_step_length)
    from Inr have "\<not> isl (loglin_step prev 0 pos)" by simp
    then have le: "\<not> length prev < length pos" by (simp add: loglin_step_isl)
    from "2.IH"[OF Inr r[symmetric]] Inr r le len show ?thesis by simp
  qed
qed

lemma grows_iff: "grows n ls \<longleftrightarrow> (\<exists>i<length ls. (n # ls) ! i < ls ! i)"
proof (induction ls arbitrary: n)
  case Nil
  then show ?case by simp
next
  case (Cons l ls)
  have "(\<exists>i<length (l # ls). (n # l # ls) ! i < (l # ls) ! i) \<longleftrightarrow>
        (n < l \<or> (\<exists>i<length ls. (l # ls) ! i < ls ! i))"
    by (auto simp: less_Suc_eq_0_disj)
  with Cons show ?case by simp
qed

lemma nth_length_Cons: "i \<le> length rest \<Longrightarrow> (length s # map length rest) ! i = length ((s # rest) ! i)"
  by (cases i) simp_all

lemma grows_hd: "bd \<noteq> [] \<Longrightarrow> grows (length (hd bd)) (map length bd) \<longleftrightarrow>
   (\<exists>i. Suc i < length bd \<and> length (bd ! i) < length (bd ! Suc i))"
proof (cases bd)
  case Nil
  assume "bd \<noteq> []" with Nil show ?thesis by simp
next
  case (Cons s rest)
  have "grows (length s) (map length rest) \<longleftrightarrow> (\<exists>i<length rest. length ((s # rest) ! i) < length (rest ! i))"
    by (auto simp: grows_iff nth_length_Cons)
  with Cons show ?thesis by simp
qed

lemma bayesian_full_isl:
  "isl (fst (breakdown2score_bayesian ws bd True)) \<longleftrightarrow>
     bd \<noteq> [] \<and> ws \<noteq> NEG_INF \<and> (\<exists>pos\<in>set bd. length (hd bd) < length pos)"
proof (cases "bd = [] \<or> ws = NEG_INF")
  case True
  then show ?thesis by (auto simp: breakdown2score_bayesian_def)
next
  case False
  let ?r = "bayesian_full_loop (map (\<lambda>(p, w). np_log w) (hd bd)) [] bd"
  from False have "isl (fst (breakdown2score_bayesian ws bd True)) \<longleftrightarrow> isl ?r"
    by (cases ?r) (simp_all add: breakdown2score_bayesian_def)
  with False show ?thesis by (simp add: bayesian_full_loop_isl)
qed

lemma bex_butlast_last:
  "xs \<noteq> [] \<Longrightarrow> (\<exists>x\<in>set xs. P x) \<longleftrightarrow> (P (last xs) \<or> (\<exists>x\<in>set (butlast xs). P x))"
  by (induction xs rule: rev_induct) auto

lemma bayesian_incremental_unfold:
  assumes "bd \<noteq> []" and "ws \<noteq> NEG_INF" and "length bd \<noteq> 1"
  shows "breakdown2score_bayesian ws bd False =
     (case add_all_scores (map np_log (map snd (hd bd))) (butlast bd) of
        Inl e \<Rightarrow> (Inl e, bd)
      | Inr alphas \<Rightarrow>
          (case norm_scores alphas (log_sum alphas) 0 (last bd) of
             Inl e \<Rightarrow> (Inl e, bd)
           | Inr scores \<Rightarrow>
               (case posterior_step alphas (log_sum alphas) 0 (last bd) of
                  Inl e \<Rightarrow> (Inl e, bd)
                | Inr updated_breakdown \<Rightarrow>
                    (Inr (fadd (fsub ws (py_sum (map (\<lambda>(w, s). fmul w (fst s))
                              (zip (map snd (hd bd)) (last bd))))) (log_sum scores)),
                     bd[length bd - 1 := updated_breakdown]))))"
  using assms by (simp add: breakdown2score_bayesian_def Let_def split: sum.splits)

lemma bayesian_incremental_isl:
  "isl (fst (breakdown2score_bayesian ws bd False)) \<longleftrightarrow>
     bd \<noteq> [] \<and> ws \<noteq> NEG_INF \<and> length bd \<noteq> 1 \<and> (\<exists>pos\<in>set bd. length (hd bd) < length pos)"
proof (cases "bd = [] \<or> ws = NEG_INF \<or> length bd = 1")
  case True
  then show ?thesis by (auto simp: breakdown2score_bayesian_def)
next
  case False
  then have ne: "bd \<noteq> []" and ws: "ws \<noteq> NEG_INF" and len1: "length bd \<noteq> 1" by simp_all
  let ?al = "map np_log (map snd (hd bd))"
  note unfold = bayesian_incremental_unfold[OF ne ws len1]
  note split = bex_butlast_last[OF ne, of "\<lambda>pos. length (hd bd) < length pos"]
  show ?thesis
  proof (cases "add_all_scores ?al (butlast bd)")
    case (Inl e)
    then have "isl (add_all_scores ?al (butlast bd))" by simp
    then have "\<exists>pos\<in>set (butlast bd). length (hd bd) < length pos"
      by (simp add: add_all_scores_isl)
    moreover from Inl have "isl (fst (breakdown2score_bayesian ws bd False))"
      by (simp add: unfold)
    ultimately show ?thesis using ne ws len1 split by blast
  next
    case (Inr alphas)
    then have len: "length alphas = length (hd bd)"
      by (simp add: add_all_scores_length)
    from Inr have "\<not> isl (add_all_scores ?al (butlast bd))" by simp
    then have early: "\<not> (\<exists>pos\<in>set (butlast bd). length (hd bd) < length pos)"
      by (simp add: add_all_scores_isl)
    show ?thesis
    proof (cases "norm_scores alphas (log_sum alphas) 0 (last bd)")
      case norm: (Inl e)
      then have "isl (norm_scores alphas (log_sum alphas) 0 (last bd))" by simp
      then have "length (hd bd) < length (last bd)"
        by (simp add: norm_scores_isl len)
      moreover from Inr norm have "isl (fst (breakdown2score_bayesian ws bd False))"
        by (simp add: unfold)
      ultimately show ?thesis using ne ws len1 split by blast
    next
      case norm: (Inr scores)
      then have "\<not> isl (norm_scores alphas (log_sum alphas) 0 (last bd))" by simp
      then have short: "\<not> length (hd bd) < length (last bd)"
        by (simp add: norm_scores_isl len)
      then have "\<not> isl (posterior_step alphas (log_sum alphas) 0 (last bd))"
        by (simp add: posterior_step_isl len)
      then obtain updated where "posterior_step alphas (log_sum alphas) 0 (last bd) = Inr updated"
        by (cases "posterior_step alphas (log_sum alphas) 0 (last bd)") auto
      with Inr norm have "\<not> isl (fst (breakdown2score_bayesian ws bd False))"
        by (simp add: unfold)
      with short early split show ?thesis by blast
    qed
  qed
qed

lemma bayesian_error:
  "isl (fst (breakdown2score_bayesian ws bd full)) \<Longrightarrow>
   breakdown2score_bayesian ws bd full = (Inl IndexError, bd)"
  by (auto simp: breakdown2score_bayesian_def Let_def
           split: if_splits sum.splits
           dest: bayesian_full_loop_error add_all_scores_error norm_scores_error
                 posterior_step_error)

lemma bayesian_loglin_isl:
  "isl (fst (breakdown2score_bayesian_loglin ws bd full)) \<longleftrightarrow>
     (\<exists>i. Suc i < length bd \<and> length (bd ! i) < length (bd ! Suc i))"
proof (cases "bd = []")
  case True
  then show ?thesis by (simp add: breakdown2score_bayesian_loglin_def)
next
  case False
  let ?r = "loglin_loop (map (\<lambda>(p, w). np_log w) (hd bd)) [] bd"
  from False have "isl (fst (breakdown2score_bayesian_loglin ws bd full)) \<longleftrightarrow> isl ?r"
    by (cases ?r) (simp_all add: breakdown2score_bayesian_loglin_def)
  with False show ?thesis by (simp add: loglin_loop_isl grows_hd)
qed

lemma bayesian_loglin_error:
  "isl (fst (breakdown2score_bayesian_loglin ws bd full)) \<Longrightarrow>
   breakdown2score_bayesian_loglin ws bd full = (Inl IndexError, bd)"
  by (auto simp: breakdown2score_bayesian_loglin_def
           split: if_splits sum.splits dest: loglin_loop_error)

text \<open>
  Claim C3, as the code has it. No strategy validates the predictor counts. Whatever
  the counts are, \<open>sum\<close> never raises and \<open>length_norm\<close> does not raise on a non-empty
  history. The Bayesian strategies raise exactly when a step that is read has more
  predictors than the list of alphas has entries: for \<open>bayesian\<close>, a step longer than
  step 0 (of a non-empty history, with a working score other than the sentinel, and in
  incremental mode with more than one step); for \<open>bayesian_loglin\<close>, a step longer than
  the step before it. What they raise then is an IndexError, and the breakdown is left
  as it was. In every other case a score is computed from the entries there are.
\<close>

theorem predictor_count_not_validated:
  "\<not> isl (fst (breakdown2score_sum ws bd full)) \<and>
   (bd \<noteq> [] \<longrightarrow> \<not> isl (fst (breakdown2score_length_norm ws bd full))) \<and>
   (isl (fst (breakdown2score_bayesian ws bd True)) \<longleftrightarrow>
      bd \<noteq> [] \<and> ws \<noteq> NEG_INF \<and> (\<exists>pos\<in>set bd. length (hd bd) < length pos)) \<and>
   (isl (fst (breakdown2score_bayesian ws bd False)) \<longleftrightarrow>
      bd \<noteq> [] \<and> ws \<noteq> NEG_INF \<and> length bd \<noteq> 1 \<and>
      (\<exists>pos\<in>set bd. length (hd bd) < length pos)) \<and>
   (isl (fst (breakdown2score_bayesian_loglin ws bd full)) \<longleftrightarrow>
      (\<exists>i. Suc i < length bd \<and> length (bd ! i) < length (bd ! Suc i))) \<and>
   (isl (fst (breakdown2score_bayesian ws bd full)) \<longrightarrow>
      breakdown2score_bayesian ws bd full = (Inl IndexError, bd)) \<and>
   (isl (fst (breakdown2score_bayesian_loglin ws bd full)) \<longrightarrow>
      breakdown2score_bayesian_loglin ws bd full = (Inl IndexError, bd))"
proof (intro conjI impI)
  show "\<not> isl (fst (breakdown2score_sum ws bd full))"
    by (simp add: breakdown2score_sum_def)
  show "\<not> isl (fst (breakdown2score_length_norm ws bd full))" if "bd \<noteq> []"
    using that by (simp add: breakdown2score_length_norm_def)
  show "isl (fst (breakdown2score_bayesian ws bd True)) \<longleftrightarrow>
      bd \<noteq> [] \<and> ws \<noteq> NEG_INF \<and> (\<exists>pos\<in>set bd. length (hd bd) < length pos)"
    by (rule bayesian_full_isl)
  show "isl (fst (breakdown2score_bayesian ws bd False)) \<longleftrightarrow>
      bd \<noteq> [] \<and> ws \<noteq> NEG_INF \<and> length bd \<noteq> 1 \<and>
      (\<exists>pos\<in>set bd. length (hd bd) < length pos)"
    by (rule bayesian_incremental_isl)
  show "isl (fst (breakdown2score_bayesian_loglin ws bd full)) \<longleftrightarrow>
      (\<exists>i. Suc i < length bd \<and> length (bd ! i) < length (bd ! Suc i))"
    by (rule bayesian_loglin_isl)
  show "breakdown2score_bayesian ws bd full = (Inl IndexError, bd)"
    if "isl (fst (breakdown2score_bayesian ws bd full))"
    using that by (rule bayesian_error)
  show "breakdown2score_bayesian_loglin ws bd full = (Inl IndexError, bd)"
    if "isl (fst (breakdown2score_bayesian_loglin ws bd full))"
    using that by (rule bayesian_loglin_error)
qed

theorem predictor_count_not_validated_witness:
  "breakdown2score_bayesian (Fin 0) [[(Fin 0, Fin 1)], [(Fin 0, Fin 1), (Fin 0, Fin 1)]] True =
     (Inl IndexError, [[(Fin 0, Fin 1)], [(Fin 0, Fin 1), (Fin 0, Fin 1)]]) \<and>
   breakdown2score_bayesian_loglin (Fin 0) [[(Fin 0, Fin 1)], [(Fin 0, Fin 1), (Fin 0, Fin 1)]] True =
     (Inl IndexError, [[(Fin 0, Fin 1)], [(Fin 0, Fin 1), (Fin 0, Fin 1)]]) \<and>
   \<not> isl (fst (breakdown2score_length_norm (Fin 0)
                  [[(Fin 0, Fin 1)], [(Fin 0, Fin 1), (Fin 0, Fin 1)]] True))"
proof -
  let ?bd = "[[(Fin 0, Fin 1)], [(Fin 0, Fin 1), (Fin 0, Fin 1 :: pyfloat)]]"
  note inst = predictor_count_not_validated [of "Fin 0" ?bd True]
  have longer: "\<exists>pos\<in>set ?bd. length (hd ?bd) < length pos"
    by simp
  have grows: "\<exists>i. Suc i < length ?bd \<and> length (?bd ! i) < length (?bd ! Suc i)"
    by (rule exI[of _ 0]) simp
  from inst longer have "isl (fst (breakdown2score_bayesian (Fin 0) ?bd True))"
    by (simp add: NEG_INF_def)
  with inst have 1: "breakdown2score_bayesian (Fin 0) ?bd True = (Inl IndexError, ?bd)"
    by blast
  from inst grows have "isl (fst (breakdown2score_bayesian_loglin (Fin 0) ?bd True))"
    by blast
  with inst have 2: "breakdown2score_bayesian_loglin (Fin 0) ?bd True = (Inl IndexError, ?bd)"
    by blast
  from inst have 3: "\<not> isl (fst (breakdown2score_length_norm (Fin 0) ?bd True))"
    by simp
  from 1 2 3 show ?thesis by blast
qed

text \<open>
  Claim C3 as stated fails: on a history whose steps have two predictors and then one,
  no strategy raises; each returns a score.
\<close>

theorem predictor_count_counterexample:
  "map length [[(Fin 0, Fin 1), (Fin 0, Fin 1)], [(Fin 0, Fin 1 :: pyfloat)]] = [2, 1] \<and>
   breakdown2score_sum (Fin 0) [[(Fin 0, Fin 1), (Fin 0, Fin 1)], [(Fin 0, Fin 1)]] False =
     (Inr (Fin 0), [[(Fin 0, Fin 1), (Fin 0, Fin 1)], [(Fin 0, Fin 1)]]) \<and>
   breakdown2score_length_norm (Fin 0) [[(Fin 0, Fin 1), (Fin 0, Fin 1)], [(Fin 0, Fin 1)]] False =
     (Inr (Fin 0), [[(Fin 0, Fin 1), (Fin 0, Fin 1)], [(Fin 0, Fin 1)]]) \<and>
   \<not> isl (fst (breakdown2score_bayesian (Fin 0)
                  [[(Fin 0, Fin 1), (Fin 0, Fin 1)], [(Fin 0, Fin 1)]] True)) \<and>
   \<not> isl (fst (breakdown2score_bayesian (Fin 0)
                  [[(Fin 0, Fin 1), (Fin 0, Fin 1)], [(Fin 0, Fin 1)]] False)) \<and>
   \<not> isl (fst (breakdown2score_bayesian_loglin (Fin 0)
                  [[(Fin 0, Fin 1), (Fin 0, Fin 1)], [(Fin 0, Fin 1)]] False))"
proof -
  let ?bd = "[[(Fin 0, Fin 1), (Fin 0, Fin 1)], [(Fin 0, Fin 1 :: pyfloat)]]"
  have "\<not> (\<exists>i. Suc i < length ?bd \<and> length (?bd ! i) < length (?bd ! Suc i))"
    by (auto simp: less_Suc_eq)
  then have "\<not> isl (fst (breakdown2score_bayesian_loglin (Fin 0) ?bd False))"
    using bayesian_loglin_isl by blast
  moreover have "\<not> isl (fst (breakdown2score_bayesian (Fin 0) ?bd True))"
    by (simp add: bayesian_full_isl)
  moreover have "\<not> isl (fst (breakdown2score_bayesian (Fin 0) ?bd False))"
    by (simp add: bayesian_incremental_isl)
  moreover have "breakdown2score_length_norm (Fin 0) ?bd False = (Inr (Fin 0), ?bd)"
    by (simp add: breakdown2score_length_norm_def combi_arithmetic_unnormalized_def py_sum_def)
  moreover have "breakdown2score_sum (Fin 0) ?bd False = (Inr (Fin 0), ?bd)"
    by (simp add: breakdown2score_sum_def)
  ultimately show ?thesis by simp
qed

subsection \<open>The posterior weights written by the incremental mode\<close>






subsection \<open>Values of the log domain\<close>




















subsection \<open>The log-sum-exp of log-domain values\<close>



lemma mass_zero_iff: "mass x = 0 \<longleftrightarrow> \<not> is_fin x"
  by (cases x) simp_all











subsection \<open>The incremental mode on histories of at least two steps\<close>













subsection \<open>Full mode against the incremental prefix run\<close>

lemma log_sum_pair: "log_sum [Fin a, Fin b] = Fin (ln (exp a + exp b))"
  using log_sum_Fin[of "[a, b]"] by simp

lemma exp_multiple_ln2: "exp (2 * ln (2::real)) = 4" "exp (3 * ln (2::real)) = 8"
  using exp_of_nat_mult[of 2 "ln (2::real)"] exp_of_nat_mult[of 3 "ln (2::real)"] by simp_all

lemma ln_sums:
  "ln (5 / 6) + ln (9 / 10) = ln (3 / 4 :: real)"
  "ln (3 / 4) + ln (5 / 6) = ln (5 / 8 :: real)"
proof -
  have "ln (5 / 6) + ln (9 / 10) = ln ((5 / 6) * (9 / 10) :: real)"
    by (rule ln_mult_pos[symmetric]) simp_all
  then show "ln (5 / 6) + ln (9 / 10) = ln (3 / 4 :: real)" by simp
  have "ln (3 / 4) + ln (5 / 6) = ln ((3 / 4) * (5 / 6) :: real)"
    by (rule ln_mult_pos[symmetric]) simp_all
  then show "ln (3 / 4) + ln (5 / 6) = ln (5 / 8 :: real)" by simp
qed

text \<open>
  Claim C1. The full mode is claimed to agree, within \<open>1e-9\<close>, with the incremental mode
  run once per prefix. The code does not: the full mode adds the scores of a step to the
  alphas before it normalises them for that same step (lines 92 to 96), the incremental
  mode uses the alphas of the steps before (lines 110 to 115, and the priors alone for
  the first step). With priors \<open>0.5, 0.5\<close> and log-probabilities \<open>0\<close> and \<open>log 0.5\<close> in
  each step, two steps give \<open>log (3/4)\<close> in full mode and \<open>log (5/8)\<close> from the prefix run,
  and the first step alone gives \<open>log (5/6)\<close> against \<open>log (3/4)\<close>; the results are more
  than \<open>0.1\<close> apart.
\<close>

theorem full_mode_differs_from_prefix_run:
  "well_formed [[(Fin 0, Fin (1/2)), (Fin (- ln 2), Fin (1/2))],
                [(Fin 0, Fin (1/2)), (Fin (- ln 2), Fin (1/2))]] \<and>
   fst (breakdown2score_bayesian (Fin 0)
          [[(Fin 0, Fin (1/2)), (Fin (- ln 2), Fin (1/2))],
           [(Fin 0, Fin (1/2)), (Fin (- ln 2), Fin (1/2))]] True) = Inr (Fin (ln (3/4))) \<and>
   fst (incremental_prefixes (Fin 0) []
          [[(Fin 0, Fin (1/2)), (Fin (- ln 2), Fin (1/2))],
           [(Fin 0, Fin (1/2)), (Fin (- ln 2), Fin (1/2))]]) = Inr (Fin (ln (5/8))) \<and>
   (1/6 :: real) \<le> ln (3/4) - ln (5/8) \<and>
   fst (breakdown2score_bayesian (Fin 0)
          [[(Fin 0, Fin (1/2)), (Fin (- ln 2), Fin (1/2))]] True) = Inr (Fin (ln (5/6))) \<and>
   fst (incremental_prefixes (Fin 0) []
          [[(Fin 0, Fin (1/2)), (Fin (- ln 2), Fin (1/2))]]) = Inr (Fin (ln (3/4))) \<and>
   (1/10 :: real) \<le> ln (5/6) - ln (3/4)"
proof (intro conjI)
  show "well_formed [[(Fin 0, Fin (1/2)), (Fin (- ln 2), Fin (1/2))],
                     [(Fin 0, Fin (1/2)), (Fin (- ln 2), Fin (1/2))]]"
    by (simp add: well_formed_def)
  show "fst (breakdown2score_bayesian (Fin 0)
          [[(Fin 0, Fin (1/2)), (Fin (- ln 2), Fin (1/2))],
           [(Fin 0, Fin (1/2)), (Fin (- ln 2), Fin (1/2))]] True) = Inr (Fin (ln (3/4)))"
    by (simp add: breakdown2score_bayesian_def NEG_INF_def log_sum_pair fsub_def py_sum_def
          exp_add exp_diff exp_minus exp_multiple_ln2 ln_sums)
  show "fst (incremental_prefixes (Fin 0) []
          [[(Fin 0, Fin (1/2)), (Fin (- ln 2), Fin (1/2))],
           [(Fin 0, Fin (1/2)), (Fin (- ln 2), Fin (1/2))]]) = Inr (Fin (ln (5/8)))"
    by (simp add: breakdown2score_bayesian_def NEG_INF_def log_sum_pair fsub_def py_sum_def
          naive_contribution_def exp_add exp_diff exp_minus exp_multiple_ln2 ln_sums)
  show "(1/6 :: real) \<le> ln (3/4) - ln (5/8)"
    using ln_diff_le[of "5/8 :: real" "3/4"] by simp
  show "fst (breakdown2score_bayesian (Fin 0)
          [[(Fin 0, Fin (1/2)), (Fin (- ln 2), Fin (1/2))]] True) = Inr (Fin (ln (5/6)))"
    by (simp add: breakdown2score_bayesian_def NEG_INF_def log_sum_pair fsub_def py_sum_def
          exp_add exp_diff exp_minus exp_multiple_ln2)
  show "fst (incremental_prefixes (Fin 0) []
          [[(Fin 0, Fin (1/2)), (Fin (- ln 2), Fin (1/2))]]) = Inr (Fin (ln (3/4)))"
    by (simp add: breakdown2score_bayesian_def NEG_INF_def log_sum_pair fsub_def py_sum_def
          naive_contribution_def exp_add exp_diff exp_minus)
  show "(1/10 :: real) \<le> ln (5/6) - ln (3/4)"
    using ln_diff_le[of "3/4 :: real" "5/6"] by simp
qed

end
